theory Spec2Isabelle
  imports Complex_Main
begin

section \<open>Python values\<close>

text \<open>
  The handler of \<^verbatim>\<open>api/alexa.py\<close> works on what \<^verbatim>\<open>json.loads\<close> returns and on
  the dictionaries it builds itself. A Python \<^verbatim>\<open>str\<close> is a sequence of code points and
  \<^verbatim>\<open>len\<close> counts code points, so a string of the model is a list of code points.
  String constants of the source are written as literals and embedded by \<open>str\<close>.
\<close>

type_synonym pystr = "nat list"

definition str :: "string \<Rightarrow> pystr" where
  "str s = map of_char s"

text \<open>
  A float matters to the handler only through its truth value. A finite float is the
  rational it denotes (\<^verbatim>\<open>-0.0\<close> is \<open>0\<close>); \<^verbatim>\<open>json.loads\<close> also accepts the
  literals \<^verbatim>\<open>Infinity\<close>, \<^verbatim>\<open>-Infinity\<close> and \<^verbatim>\<open>NaN\<close>.
\<close>

datatype pyfloat = Finite rat | Infinity bool | NaN

text \<open>
  A dictionary is the list of its items; a key is looked up with \<open>map_of\<close>. The
  dictionaries of the source are written in the order of the source.
\<close>

datatype pyval =
    PNone
  | PBool bool
  | PInt int
  | PFloat pyfloat
  | PStr pystr
  | PList "pyval list"
  | PDict "(pystr \<times> pyval) list"

datatype pyerror =
    KeyError
  | TypeError
  | AttributeError
  | IndexError
  | JSONDecodeError
  | APIError

text \<open>Sequencing of statements that may raise: the first exception ends the block.\<close>

definition bind_res :: "pyerror + 'a \<Rightarrow> ('a \<Rightarrow> pyerror + 'b) \<Rightarrow> pyerror + 'b" where
  "bind_res m f = (case m of Inl e \<Rightarrow> Inl e | Inr x \<Rightarrow> f x)"

text \<open>\<^verbatim>\<open>v[k]\<close> for a string key \<open>k\<close>.\<close>

fun py_getitem :: "pyval \<Rightarrow> pystr \<Rightarrow> pyerror + pyval" where
  "py_getitem (PDict kvs) k = (case map_of kvs k of None \<Rightarrow> Inl KeyError | Some v \<Rightarrow> Inr v)"
| "py_getitem _ k = Inl TypeError"

text \<open>\<^verbatim>\<open>v.get(k, d)\<close>: only a dictionary has the method.\<close>

fun py_get :: "pyval \<Rightarrow> pystr \<Rightarrow> pyval \<Rightarrow> pyerror + pyval" where
  "py_get (PDict kvs) k d = (case map_of kvs k of None \<Rightarrow> Inr d | Some v \<Rightarrow> Inr v)"
| "py_get _ k d = Inl AttributeError"

text \<open>The truth value of \<^verbatim>\<open>not v\<close> is \<open>\<not> truthy v\<close>.\<close>

fun truthy :: "pyval \<Rightarrow> bool" where
  "truthy PNone = False"
| "truthy (PBool b) = b"
| "truthy (PInt i) = (i \<noteq> 0)"
| "truthy (PFloat (Finite q)) = (q \<noteq> 0)"
| "truthy (PFloat (Infinity b)) = True"
| "truthy (PFloat NaN) = True"
| "truthy (PStr s) = (s \<noteq> [])"
| "truthy (PList xs) = (xs \<noteq> [])"
| "truthy (PDict kvs) = (kvs \<noteq> [])"

text \<open>
  \<^verbatim>\<open>s.strip()\<close> removes leading and trailing white space, the code points for which
  \<^verbatim>\<open>str.isspace\<close> holds.
\<close>

definition is_space :: "nat \<Rightarrow> bool" where
  "is_space c =
     ((9 \<le> c \<and> c \<le> 13) \<or> (28 \<le> c \<and> c \<le> 32) \<or> c = 133 \<or> c = 160 \<or> c = 5760 \<or>
      (8192 \<le> c \<and> c \<le> 8202) \<or> c = 8232 \<or> c = 8233 \<or> c = 8239 \<or> c = 8287 \<or>
      c = 12288)"

definition strip :: "pystr \<Rightarrow> pystr" where
  "strip s = rev (dropWhile is_space (rev (dropWhile is_space s)))"

section \<open>The external completion service\<close>

text \<open>
  \<^verbatim>\<open>client.chat.completions.create\<close> is outside the program. On the user's query it
  either raises (network or API error, no credential, timeout) or returns a response;
  of a response the code reads \<^verbatim>\<open>choices[0].message.content\<close>, so a response is the
  list of its choices' contents, \<open>None\<close> where the content is \<^verbatim>\<open>None\<close>. The
  service is a parameter of every function that can reach it.
\<close>

datatype completion = Raises | Returns "pystr option list"

type_synonym client = "pyval \<Rightarrow> completion"

text \<open>
  The effect the claims speak of is the invocation of \<^verbatim>\<open>generate_ai_response\<close>: each
  function returns, with its value, the list of the invocations it made, as the pair
  of the arguments \<^verbatim>\<open>(user_query, user_id)\<close>.
\<close>

type_synonym invocation = "pyval \<times> pyval"

section \<open>The response builders\<close>

definition speech :: "pystr \<Rightarrow> pyval" where
  "speech text = PDict [(str ''type'', PStr (str ''PlainText'')), (str ''text'', PStr text)]"

definition handle_launch_request :: pyval where
  "handle_launch_request =
     PDict [(str ''version'', PStr (str ''1.0'')),
            (str ''response'', PDict
               [(str ''outputSpeech'',
                   speech (str ''Hello! I'm your AI assistant. How can I help you today?'')),
                (str ''reprompt'', PDict
                   [(str ''outputSpeech'',
                       speech (str ''What would you like me to help you with?''))]),
                (str ''shouldEndSession'', PBool False)])]"

definition handle_help_intent :: pyval where
  "handle_help_intent =
     PDict [(str ''version'', PStr (str ''1.0'')),
            (str ''response'', PDict
               [(str ''outputSpeech'',
                   speech (str ''I'm your AI assistant. You can ask me questions, get information, or have a conversation. Just say what you need help with!'')),
                (str ''shouldEndSession'', PBool False)])]"

definition handle_stop_intent :: pyval where
  "handle_stop_intent =
     PDict [(str ''version'', PStr (str ''1.0'')),
            (str ''response'', PDict
               [(str ''outputSpeech'', speech (str ''Goodbye!'')),
                (str ''shouldEndSession'', PBool True)])]"

definition handle_session_ended_request :: pyval where
  "handle_session_ended_request =
     PDict [(str ''version'', PStr (str ''1.0'')), (str ''response'', PDict [])]"

definition create_error_response :: "pystr \<Rightarrow> pyval" where
  "create_error_response message =
     PDict [(str ''version'', PStr (str ''1.0'')),
            (str ''response'', PDict
               [(str ''outputSpeech'', speech message),
                (str ''shouldEndSession'', PBool False)])]"

section \<open>The AI responder\<close>

text \<open>The body of the \<^verbatim>\<open>try\<close> block of \<^verbatim>\<open>generate_ai_response\<close>.\<close>

definition generate_ai_response_try :: "client \<Rightarrow> pyval \<Rightarrow> pyval \<Rightarrow> pyerror + pystr" where
  "generate_ai_response_try cl user_query user_id =
     (case cl user_query of
        Raises \<Rightarrow> Inl APIError
      | Returns choices \<Rightarrow>
          (case choices of
             [] \<Rightarrow> Inl IndexError
           | content # _ \<Rightarrow>
               (case content of
                  None \<Rightarrow> Inl AttributeError
                | Some c \<Rightarrow>
                    (let ai_response = strip c
                     in Inr (if length ai_response > 8000
                             then take 7900 ai_response @ str ''...''
                             else ai_response)))))"

definition fallback_text :: pystr where
  "fallback_text =
     str ''I'm having trouble connecting to my knowledge base right now. Please try again in a moment.''"

definition generate_ai_response :: "client \<Rightarrow> pyval \<Rightarrow> pyval \<Rightarrow> pystr" where
  "generate_ai_response cl user_query user_id =
     (case generate_ai_response_try cl user_query user_id of
        Inl e \<Rightarrow> fallback_text
      | Inr ai_response \<Rightarrow> ai_response)"

section \<open>The request router\<close>

text \<open>The body of the \<^verbatim>\<open>try\<close> block of \<^verbatim>\<open>handle_chat_intent\<close>.\<close>

definition handle_chat_intent_try ::
  "client \<Rightarrow> pyval \<Rightarrow> pyerror + (pyval \<times> invocation list)" where
  "handle_chat_intent_try cl alexa_request =
     bind_res (py_getitem alexa_request (str ''request'')) (\<lambda>request.
     bind_res (py_getitem request (str ''intent'')) (\<lambda>intent.
     bind_res (py_get intent (str ''slots'') (PDict [])) (\<lambda>slots.
     bind_res (py_get slots (str ''query'') (PDict [])) (\<lambda>slot.
     bind_res (py_get slot (str ''value'') (PStr [])) (\<lambda>user_query.
       if \<not> truthy user_query
       then Inr (create_error_response
                   (str ''I didn't catch what you said. Could you repeat that?''), [])
       else
         bind_res (py_get alexa_request (str ''session'') (PDict [])) (\<lambda>session.
         bind_res (py_get session (str ''user'') (PDict [])) (\<lambda>user.
         bind_res (py_get user (str ''userId'') (PStr (str ''unknown''))) (\<lambda>user_id.
           Inr (PDict [(str ''version'', PStr (str ''1.0'')),
                       (str ''response'', PDict
                          [(str ''outputSpeech'',
                              speech (generate_ai_response cl user_query user_id)),
                           (str ''shouldEndSession'', PBool False)])],
                [(user_query, user_id)])))))))))"

definition handle_chat_intent :: "client \<Rightarrow> pyval \<Rightarrow> pyval \<times> invocation list" where
  "handle_chat_intent cl alexa_request =
     (case handle_chat_intent_try cl alexa_request of
        Inl e \<Rightarrow>
          (create_error_response (str ''Sorry, I had trouble processing your request.''), [])
      | Inr r \<Rightarrow> r)"

definition handle_intent_request ::
  "client \<Rightarrow> pyval \<Rightarrow> pyerror + (pyval \<times> invocation list)" where
  "handle_intent_request cl alexa_request =
     bind_res (py_getitem alexa_request (str ''request'')) (\<lambda>request.
     bind_res (py_getitem request (str ''intent'')) (\<lambda>intent.
     bind_res (py_getitem intent (str ''name'')) (\<lambda>intent_name.
       if intent_name = PStr (str ''ChatIntent'')
       then Inr (handle_chat_intent cl alexa_request)
       else if intent_name = PStr (str ''AMAZON.HelpIntent'')
       then Inr (handle_help_intent, [])
       else if intent_name = PStr (str ''AMAZON.CancelIntent'')
               \<or> intent_name = PStr (str ''AMAZON.StopIntent'')
       then Inr (handle_stop_intent, [])
       else Inr (create_error_response (str ''I didn't understand that request.''), []))))"

definition process_alexa_request ::
  "client \<Rightarrow> pyval \<Rightarrow> pyerror + (pyval \<times> invocation list)" where
  "process_alexa_request cl alexa_request =
     bind_res (py_getitem alexa_request (str ''request'')) (\<lambda>request.
     bind_res (py_getitem request (str ''type'')) (\<lambda>request_type.
       if request_type = PStr (str ''LaunchRequest'')
       then Inr (handle_launch_request, [])
       else if request_type = PStr (str ''IntentRequest'')
       then handle_intent_request cl alexa_request
       else if request_type = PStr (str ''SessionEndedRequest'')
       then Inr (handle_session_ended_request, [])
       else Inr (create_error_response (str ''Unknown request type''), [])))"

section \<open>The top-level handler\<close>

text \<open>
  Of the framework's request object the handler reads \<^verbatim>\<open>method\<close>, then \<^verbatim>\<open>body\<close> if
  the object has that attribute and \<^verbatim>\<open>json\<close> otherwise. The text of a body is
  classified by what \<^verbatim>\<open>json.loads\<close> does with it: it raises, or it returns a value.
  \<open>json_attr\<close> is \<open>None\<close> when reading the attribute raises.
\<close>

datatype body_text = Unparseable | Parses pyval

record http_request =
  http_method :: pystr
  body_attr :: "body_text option"
  json_attr :: "pyval option"

text \<open>
  The handler returns a dictionary with the keys \<^verbatim>\<open>statusCode\<close>, \<^verbatim>\<open>headers\<close> (on
  success only) and \<^verbatim>\<open>body\<close>. The body is the text \<^verbatim>\<open>json.dumps\<close> gives for a
  value; the model keeps that value. With the response come the invocations made; an
  exception carries none, since nothing raises once \<^verbatim>\<open>generate_ai_response\<close> has been
  called.
\<close>

record http_response =
  statusCode :: int
  headers :: "(pystr \<times> pystr) list option"
  body :: pyval

definition json_loads :: "body_text \<Rightarrow> pyerror + pyval" where
  "json_loads b = (case b of Unparseable \<Rightarrow> Inl JSONDecodeError | Parses v \<Rightarrow> Inr v)"

definition apology :: pyval where
  "apology =
     PDict [(str ''version'', PStr (str ''1.0'')),
            (str ''response'', PDict
               [(str ''outputSpeech'',
                   speech (str ''Sorry, I encountered an error. Please try again.'')),
                (str ''shouldEndSession'', PBool True)])]"

text \<open>
  \<^verbatim>\<open>json.loads(request.body) if hasattr(request, 'body') else request.json\<close>
\<close>

definition read_request :: "http_request \<Rightarrow> pyerror + pyval" where
  "read_request request =
     (case body_attr request of
        Some b \<Rightarrow> json_loads b
      | None \<Rightarrow> (case json_attr request of
                   None \<Rightarrow> Inl AttributeError
                 | Some v \<Rightarrow> Inr v))"

text \<open>The body of the \<^verbatim>\<open>try\<close> block of \<^verbatim>\<open>handler\<close>.\<close>

definition handler_try ::
  "client \<Rightarrow> http_request \<Rightarrow> pyerror + (http_response \<times> invocation list)" where
  "handler_try cl request =
     (if http_method request \<noteq> str ''POST''
      then Inr (\<lparr>statusCode = 405, headers = None,
                 body = PDict [(str ''error'', PStr (str ''Method not allowed''))]\<rparr>, [])
      else
        bind_res (read_request request) (\<lambda>alexa_request.
        bind_res (py_get alexa_request (str ''request'') PNone) (\<lambda>r.
          if \<not> truthy r
          then Inr (\<lparr>statusCode = 400, headers = None,
                     body = PDict [(str ''error'', PStr (str ''Invalid Alexa request''))]\<rparr>, [])
          else
            bind_res (process_alexa_request cl alexa_request) (\<lambda>(response, calls).
              Inr (\<lparr>statusCode = 200,
                    headers = Some [(str ''Content-Type'', str ''application/json'')],
                    body = response\<rparr>, calls)))))"

definition handler :: "client \<Rightarrow> http_request \<Rightarrow> http_response \<times> invocation list" where
  "handler cl request =
     (case handler_try cl request of
        Inl e \<Rightarrow> (\<lparr>statusCode = 500, headers = None, body = apology\<rparr>, [])
      | Inr r \<Rightarrow> r)"

section \<open>Reading a response\<close>

text \<open>The value at a path of keys in nested dictionaries, if there is one.\<close>

fun lookup_path :: "pyval \<Rightarrow> pystr list \<Rightarrow> pyval option" where
  "lookup_path v [] = Some v"
| "lookup_path (PDict kvs) (k # ks) =
     (case map_of kvs k of None \<Rightarrow> None | Some w \<Rightarrow> lookup_path w ks)"
| "lookup_path _ (k # ks) = None"

definition version_of :: "pyval \<Rightarrow> pyval option" where
  "version_of r = lookup_path r [str ''version'']"

definition response_of :: "pyval \<Rightarrow> pyval option" where
  "response_of r = lookup_path r [str ''response'']"

definition should_end :: "pyval \<Rightarrow> pyval option" where
  "should_end r = lookup_path r [str ''response'', str ''shouldEndSession'']"

definition speech_text :: "pyval \<Rightarrow> pyval option" where
  "speech_text r = lookup_path r [str ''response'', str ''outputSpeech'', str ''text'']"

definition speech_type :: "pyval \<Rightarrow> pyval option" where
  "speech_type r = lookup_path r [str ''response'', str ''outputSpeech'', str ''type'']"

definition reprompt_text :: "pyval \<Rightarrow> pyval option" where
  "reprompt_text r =
     lookup_path r [str ''response'', str ''reprompt'', str ''outputSpeech'', str ''text'']"

text \<open>
  A response envelope has the version tag and a response object; a speech-shaped response
  also carries a plain-text output speech and the session flag.
\<close>

definition envelope :: "pyval \<Rightarrow> bool" where
  "envelope r =
     (version_of r = Some (PStr (str ''1.0'')) \<and>
      (case response_of r of Some (PDict kvs) \<Rightarrow> True | _ \<Rightarrow> False))"

definition speech_shaped :: "pyval \<Rightarrow> bool" where
  "speech_shaped r =
     (envelope r \<and>
      speech_type r = Some (PStr (str ''PlainText'')) \<and>
      (case speech_text r of Some (PStr t) \<Rightarrow> True | _ \<Rightarrow> False) \<and>
      (case should_end r of Some (PBool b) \<Rightarrow> True | _ \<Rightarrow> False))"

section \<open>Reading a request\<close>

definition type_path :: "pystr list" where
  "type_path = [str ''request'', str ''type'']"

definition name_path :: "pystr list" where
  "name_path = [str ''request'', str ''intent'', str ''name'']"

definition slots_path :: "pystr list" where
  "slots_path = [str ''request'', str ''intent'', str ''slots'']"

definition query_path :: "pystr list" where
  "query_path = [str ''request'', str ''intent'', str ''slots'', str ''query'']"

definition value_path :: "pystr list" where
  "value_path = [str ''request'', str ''intent'', str ''slots'', str ''query'', str ''value'']"

definition session_path :: "pystr list" where
  "session_path = [str ''session'']"

definition user_path :: "pystr list" where
  "user_path = [str ''session'', str ''user'']"

definition userId_path :: "pystr list" where
  "userId_path = [str ''session'', str ''user'', str ''userId'']"

text \<open>An intent request with the intent name \<open>n\<close>.\<close>

definition is_intent :: "pyval \<Rightarrow> string \<Rightarrow> bool" where
  "is_intent req n =
     (lookup_path req type_path = Some (PStr (str ''IntentRequest'')) \<and>
      lookup_path req name_path = Some (PStr (str n)))"

definition stop_or_cancel :: "pyval \<Rightarrow> bool" where
  "stop_or_cancel req =
     (is_intent req ''AMAZON.StopIntent'' \<or> is_intent req ''AMAZON.CancelIntent'')"

definition session_ended :: "pyval \<Rightarrow> bool" where
  "session_ended req =
     (lookup_path req type_path = Some (PStr (str ''SessionEndedRequest'')))"

text \<open>
  The fields the router reads with \<^verbatim>\<open>[...]\<close>: the request has a type, and an intent
  request has an intent with a name.
\<close>

definition well_formed :: "pyval \<Rightarrow> bool" where
  "well_formed req =
     (case lookup_path req type_path of
        None \<Rightarrow> False
      | Some t \<Rightarrow> t = PStr (str ''IntentRequest'') \<longrightarrow> lookup_path req name_path \<noteq> None)"

text \<open>
  A field is absent at a path when the dictionaries down to the last key exist and the
  last of them has no such key.
\<close>

fun absent :: "pyval \<Rightarrow> pystr list \<Rightarrow> bool" where
  "absent v [] = False"
| "absent (PDict kvs) [k] = (map_of kvs k = None)"
| "absent (PDict kvs) (k # ks) =
     (case map_of kvs k of None \<Rightarrow> False | Some w \<Rightarrow> absent w ks)"
| "absent v ks = False"

text \<open>The value \<open>d\<close> with the field at a path set to \<open>v\<close>.\<close>

fun put_path :: "pystr list \<Rightarrow> pyval \<Rightarrow> pyval \<Rightarrow> pyval" where
  "put_path [] v d = v"
| "put_path (k # ks) v (PDict kvs) =
     PDict ((k, put_path ks v (case map_of kvs k of None \<Rightarrow> PDict [] | Some w \<Rightarrow> w)) # kvs)"
| "put_path (k # ks) v d = d"

text \<open>
  The fields \<^verbatim>\<open>handle_chat_intent\<close> reads with \<^verbatim>\<open>.get\<close>, each with the default it
  gives.
\<close>

definition optional_fields :: "(pystr list \<times> pyval) list" where
  "optional_fields =
     [(slots_path, PDict []), (query_path, PDict []), (value_path, PStr []),
      (session_path, PDict []), (user_path, PDict []), (userId_path, PStr (str ''unknown''))]"

text \<open>
  The query slot is missing (no slots, no \<^verbatim>\<open>query\<close> slot, no \<^verbatim>\<open>value\<close>) or its
  value is empty.
\<close>

definition query_missing_or_empty :: "pyval \<Rightarrow> bool" where
  "query_missing_or_empty req =
     (absent req slots_path \<or> absent req query_path \<or> absent req value_path \<or>
      (case lookup_path req value_path of None \<Rightarrow> False | Some v \<Rightarrow> \<not> truthy v))"

text \<open>The body is a dictionary whose \<^verbatim>\<open>request\<close> field is missing or false.\<close>

definition request_missing :: "http_request \<Rightarrow> bool" where
  "request_missing rq =
     (case read_request rq of
        Inr (PDict kvs) \<Rightarrow>
          (case map_of kvs (str ''request'') of None \<Rightarrow> True | Some r \<Rightarrow> \<not> truthy r)
      | _ \<Rightarrow> False)"

text \<open>The body parses, but not to a dictionary (a list, a string, a number, null).\<close>

definition body_not_object :: "http_request \<Rightarrow> bool" where
  "body_not_object rq =
     (case read_request rq of
        Inl e \<Rightarrow> False
      | Inr (PDict kvs) \<Rightarrow> False
      | Inr v \<Rightarrow> True)"

text \<open>A POST whose body is the text of \<open>v\<close>, and the handler's answer on success.\<close>

definition post :: "pyval \<Rightarrow> http_request" where
  "post v = \<lparr>http_method = str ''POST'', body_attr = Some (Parses v), json_attr = None\<rparr>"

definition ok_response :: "pyval \<Rightarrow> http_response" where
  "ok_response v =
     \<lparr>statusCode = 200, headers = Some [(str ''Content-Type'', str ''application/json'')],
      body = v\<rparr>"

section \<open>Sample inputs\<close>

text \<open>A service that answers every query with 8001 letters \<open>a\<close>.\<close>

definition long_reply :: client where
  "long_reply q = Returns [Some (replicate 8001 97)]"

text \<open>A service that cannot be reached.\<close>

definition no_service :: client where
  "no_service q = Raises"

definition launch_request :: pyval where
  "launch_request = PDict [(str ''request'', PDict [(str ''type'', PStr (str ''LaunchRequest''))])]"

definition stop_request :: pyval where
  "stop_request =
     PDict [(str ''request'', PDict
        [(str ''type'', PStr (str ''IntentRequest'')),
         (str ''intent'', PDict [(str ''name'', PStr (str ''AMAZON.StopIntent''))])])]"

definition cancel_request :: pyval where
  "cancel_request =
     PDict [(str ''request'', PDict
        [(str ''type'', PStr (str ''IntentRequest'')),
         (str ''intent'', PDict [(str ''name'', PStr (str ''AMAZON.CancelIntent''))])])]"

definition session_ended_request :: pyval where
  "session_ended_request =
     PDict [(str ''request'', PDict [(str ''type'', PStr (str ''SessionEndedRequest''))])]"

definition intent_without_intent :: pyval where
  "intent_without_intent =
     PDict [(str ''request'', PDict [(str ''type'', PStr (str ''IntentRequest''))])]"

definition intent_without_name :: pyval where
  "intent_without_name =
     PDict [(str ''request'', PDict
        [(str ''type'', PStr (str ''IntentRequest'')), (str ''intent'', PDict [])])]"

definition chat_no_slots :: pyval where
  "chat_no_slots =
     PDict [(str ''request'', PDict
        [(str ''type'', PStr (str ''IntentRequest'')),
         (str ''intent'', PDict [(str ''name'', PStr (str ''ChatIntent''))])])]"

definition chat_empty_value :: pyval where
  "chat_empty_value =
     PDict [(str ''request'', PDict
        [(str ''type'', PStr (str ''IntentRequest'')),
         (str ''intent'', PDict
            [(str ''name'', PStr (str ''ChatIntent'')),
             (str ''slots'', PDict
                [(str ''query'', PDict
                    [(str ''name'', PStr (str ''query'')), (str ''value'', PStr [])])])])])]"

definition chat_hello :: pyval where
  "chat_hello =
     PDict [(str ''request'', PDict
        [(str ''type'', PStr (str ''IntentRequest'')),
         (str ''intent'', PDict
            [(str ''name'', PStr (str ''ChatIntent'')),
             (str ''slots'', PDict
                [(str ''query'', PDict [(str ''value'', PStr (str ''hello''))])])])])]"

definition garbled_post :: http_request where
  "garbled_post = \<lparr>http_method = str ''POST'', body_attr = Some Unparseable, json_attr = None\<rparr>"

definition list_post :: http_request where
  "list_post = post (PList [])"

definition get_request :: http_request where
  "get_request = \<lparr>http_method = str ''GET'', body_attr = None, json_attr = None\<rparr>"

section \<open>Strings\<close>

lemma str_eq_iff [simp]: "str s = str t \<longleftrightarrow> s = t"
proof -
  have "inj (of_char :: char \<Rightarrow> nat)"
    by (rule injI) simp
  then show ?thesis
    unfolding str_def by (simp add: inj_map_eq_map)
qed

lemma str_Nil_iff [simp]: "str s = [] \<longleftrightarrow> s = []"
  by (simp add: str_def)

lemma length_str [simp]: "length (str s) = length s"
  by (simp add: str_def)

lemma strip_replicate: "\<not> is_space a \<Longrightarrow> strip (replicate n a) = replicate n a"
  by (simp add: strip_def)

section \<open>Paths into a request\<close>

lemma lookup_path_Cons:
  "lookup_path v (k # ks) = Some w \<longleftrightarrow>
     (\<exists>kvs u. v = PDict kvs \<and> map_of kvs k = Some u \<and> lookup_path u ks = Some w)"
  by (cases v) (auto split: option.splits)

lemma absent_Cons2:
  "absent v (k # k' # ks) \<longleftrightarrow>
     (\<exists>kvs u. v = PDict kvs \<and> map_of kvs k = Some u \<and> absent u (k' # ks))"
  by (cases v) (auto split: option.splits)

lemma absent_single:
  "absent v [k] \<longleftrightarrow> (\<exists>kvs. v = PDict kvs \<and> map_of kvs k = None)"
  by (cases v) auto

lemma type_shape:
  "lookup_path req type_path = Some t \<longleftrightarrow>
     (\<exists>top r. req = PDict top \<and> map_of top (str ''request'') = Some (PDict r) \<and>
        map_of r (str ''type'') = Some t)"
  by (auto simp: type_path_def lookup_path_Cons)

lemma name_shape:
  "lookup_path req name_path = Some n \<longleftrightarrow>
     (\<exists>top r i. req = PDict top \<and> map_of top (str ''request'') = Some (PDict r) \<and>
        map_of r (str ''intent'') = Some (PDict i) \<and> map_of i (str ''name'') = Some n)"
  by (auto simp: name_path_def lookup_path_Cons)

lemmas router_defs =
  process_alexa_request_def handle_intent_request_def handle_chat_intent_def
  handle_chat_intent_try_def bind_res_def

lemmas read_defs =
  version_of_def response_of_def should_end_def speech_text_def speech_type_def
  reprompt_text_def speech_def

section \<open>The shape of the responses\<close>

lemma error_response_shape:
  "speech_shaped (create_error_response m)"
  "should_end (create_error_response m) = Some (PBool False)"
  "speech_text (create_error_response m) = Some (PStr m)"
  "version_of (create_error_response m) = Some (PStr (str ''1.0''))"
  by (simp_all add: speech_shaped_def envelope_def create_error_response_def read_defs)

lemma envelope_builders:
  "envelope handle_launch_request" "envelope handle_help_intent" "envelope handle_stop_intent"
  "envelope handle_session_ended_request" "envelope (create_error_response m)"
  "envelope apology"
  by (simp_all add: envelope_def handle_launch_request_def handle_help_intent_def
      handle_stop_intent_def handle_session_ended_request_def create_error_response_def
      apology_def read_defs)

lemma speech_builders:
  "speech_shaped handle_launch_request" "speech_shaped handle_help_intent"
  "speech_shaped handle_stop_intent" "speech_shaped apology"
  by (simp_all add: speech_shaped_def envelope_def handle_launch_request_def
      handle_help_intent_def handle_stop_intent_def apology_def read_defs)

lemma error_bodies_not_speech:
  "\<not> envelope (PDict [(str ''error'', PStr m)])"
  "\<not> speech_shaped (PDict [(str ''error'', PStr m)])"
  by (simp_all add: speech_shaped_def envelope_def read_defs)

text \<open>
  Whatever \<^verbatim>\<open>handle_chat_intent\<close> returns has the shape of an error response: the
  answer of the service is wrapped in the same dictionary.
\<close>

lemma chat_shape: "\<exists>m. fst (handle_chat_intent cl req) = create_error_response m"
  by (auto simp: handle_chat_intent_def handle_chat_intent_try_def bind_res_def
      create_error_response_def split: sum.splits)

lemma chat_envelope: "envelope (fst (handle_chat_intent cl req))"
  using chat_shape [of cl req] by (auto simp: envelope_builders)

lemma chat_speech: "speech_shaped (fst (handle_chat_intent cl req))"
  using chat_shape [of cl req] by (auto simp: error_response_shape)

section \<open>The router, branch by branch\<close>

lemma process_typed:
  assumes "lookup_path req type_path = Some t"
  shows "process_alexa_request cl req =
     (if t = PStr (str ''LaunchRequest'') then Inr (handle_launch_request, [])
      else if t = PStr (str ''IntentRequest'') then handle_intent_request cl req
      else if t = PStr (str ''SessionEndedRequest'') then Inr (handle_session_ended_request, [])
      else Inr (create_error_response (str ''Unknown request type''), []))"
  using assms by (auto simp: type_shape process_alexa_request_def bind_res_def)

lemma process_untyped:
  assumes "lookup_path req type_path = None"
  shows "\<exists>e. process_alexa_request cl req = Inl e"
proof (cases "py_getitem req (str ''request'')")
  case (Inl e)
  then show ?thesis by (simp add: process_alexa_request_def bind_res_def)
next
  case (Inr r)
  then obtain top where top: "req = PDict top" "map_of top (str ''request'') = Some r"
    by (cases req) (auto split: option.splits)
  with assms have "lookup_path r [str ''type''] = None"
    by (simp add: type_path_def)
  then have "\<exists>e. py_getitem r (str ''type'') = Inl e"
    by (cases r) (auto split: option.splits)
  with top show ?thesis
    by (auto simp: process_alexa_request_def bind_res_def)
qed

lemma intent_named:
  assumes "lookup_path req name_path = Some n"
  shows "handle_intent_request cl req =
     (if n = PStr (str ''ChatIntent'') then Inr (handle_chat_intent cl req)
      else if n = PStr (str ''AMAZON.HelpIntent'') then Inr (handle_help_intent, [])
      else if n = PStr (str ''AMAZON.CancelIntent'') \<or> n = PStr (str ''AMAZON.StopIntent'')
      then Inr (handle_stop_intent, [])
      else Inr (create_error_response (str ''I didn't understand that request.''), []))"
  using assms by (auto simp: name_shape handle_intent_request_def bind_res_def)

lemma intent_unnamed:
  assumes "lookup_path req name_path = None"
  shows "\<exists>e. handle_intent_request cl req = Inl e"
proof (cases "py_getitem req (str ''request'')")
  case (Inl e)
  then show ?thesis by (simp add: handle_intent_request_def bind_res_def)
next
  case (Inr r)
  then obtain top where top: "req = PDict top" "map_of top (str ''request'') = Some r"
    by (cases req) (auto split: option.splits)
  show ?thesis
  proof (cases "py_getitem r (str ''intent'')")
    case (Inl e)
    with top show ?thesis by (simp add: handle_intent_request_def bind_res_def)
  next
    case i: (Inr i)
    then obtain rs where rs: "r = PDict rs" "map_of rs (str ''intent'') = Some i"
      by (cases r) (auto split: option.splits)
    with assms top have "lookup_path i [str ''name''] = None"
      by (simp add: name_path_def)
    then have "\<exists>e. py_getitem i (str ''name'') = Inl e"
      by (cases i) (auto split: option.splits)
    with top rs show ?thesis
      by (auto simp: handle_intent_request_def bind_res_def)
  qed
qed

lemma intent_request_result:
  assumes "handle_intent_request cl req = Inr (resp, calls)"
  shows "\<exists>n. lookup_path req name_path = Some n"
proof (cases "lookup_path req name_path")
  case None
  from intent_unnamed [OF None, of cl] assms show ?thesis by auto
next
  case (Some n)
  then show ?thesis by simp
qed

lemma router_envelope:
  assumes "process_alexa_request cl req = Inr (resp, calls)"
  shows "envelope resp"
proof -
  obtain t where t: "lookup_path req type_path = Some t"
    using process_untyped [of req cl] assms by (cases "lookup_path req type_path") auto
  show ?thesis
  proof (cases "t = PStr (str ''IntentRequest'')")
    case False
    with assms show ?thesis
      by (auto simp: process_typed [OF t] envelope_builders split: if_splits)
  next
    case True
    with assms have i: "handle_intent_request cl req = Inr (resp, calls)"
      by (simp add: process_typed [OF t])
    then obtain n where n: "lookup_path req name_path = Some n"
      using intent_request_result by blast
    from i chat_envelope [of cl req] show ?thesis
      by (auto simp: intent_named [OF n] envelope_builders split: if_splits)
  qed
qed

lemma router_speech:
  assumes "process_alexa_request cl req = Inr (resp, calls)"
  shows "speech_shaped resp \<or> (session_ended req \<and> resp = handle_session_ended_request)"
proof -
  obtain t where t: "lookup_path req type_path = Some t"
    using process_untyped [of req cl] assms by (cases "lookup_path req type_path") auto
  show ?thesis
  proof (cases "t = PStr (str ''IntentRequest'')")
    case False
    with assms t show ?thesis
      by (auto simp: process_typed [OF t] speech_builders error_response_shape
          session_ended_def split: if_splits)
  next
    case True
    with assms have i: "handle_intent_request cl req = Inr (resp, calls)"
      by (simp add: process_typed [OF t])
    then obtain n where n: "lookup_path req name_path = Some n"
      using intent_request_result by blast
    from i chat_speech [of cl req] show ?thesis
      by (auto simp: intent_named [OF n] speech_builders error_response_shape split: if_splits)
  qed
qed

lemma router_well_formed:
  assumes "well_formed req"
  shows "\<exists>resp calls. process_alexa_request cl req = Inr (resp, calls)"
proof -
  from assms obtain t where t: "lookup_path req type_path = Some t"
    and n: "t = PStr (str ''IntentRequest'') \<Longrightarrow> \<exists>n. lookup_path req name_path = Some n"
    by (auto simp: well_formed_def split: option.splits)
  show ?thesis
  proof (cases "t = PStr (str ''IntentRequest'')")
    case False
    then show ?thesis by (simp add: process_typed [OF t])
  next
    case True
    with n obtain m where m: "lookup_path req name_path = Some m" by blast
    obtain r c where "handle_chat_intent cl req = (r, c)" by (cases "handle_chat_intent cl req")
    with True show ?thesis
      by (simp add: process_typed [OF t] intent_named [OF m])
  qed
qed

lemma router_ill_formed:
  assumes "\<not> well_formed req"
  shows "\<exists>e. process_alexa_request cl req = Inl e"
proof (cases "lookup_path req type_path")
  case None
  then show ?thesis by (rule process_untyped)
next
  case (Some t)
  with assms have "t = PStr (str ''IntentRequest'')" "lookup_path req name_path = None"
    by (auto simp: well_formed_def)
  with Some show ?thesis
    by (simp add: process_typed [OF Some] intent_unnamed)
qed

section \<open>The handler, branch by branch\<close>

lemma handler_post:
  assumes "http_method rq = str ''POST''"
  shows "handler cl rq =
     (case read_request rq of
        Inl e \<Rightarrow> (\<lparr>statusCode = 500, headers = None, body = apology\<rparr>, [])
      | Inr v \<Rightarrow>
          (case py_get v (str ''request'') PNone of
             Inl e \<Rightarrow> (\<lparr>statusCode = 500, headers = None, body = apology\<rparr>, [])
           | Inr r \<Rightarrow>
               if \<not> truthy r
               then (\<lparr>statusCode = 400, headers = None,
                      body = PDict [(str ''error'', PStr (str ''Invalid Alexa request''))]\<rparr>, [])
               else (case process_alexa_request cl v of
                       Inl e \<Rightarrow> (\<lparr>statusCode = 500, headers = None, body = apology\<rparr>, [])
                     | Inr (resp, calls) \<Rightarrow> (ok_response resp, calls))))"
  using assms
  by (auto simp: handler_def handler_try_def bind_res_def ok_response_def split: sum.splits)

lemma handler_typed:
  assumes "http_method rq = str ''POST''" "read_request rq = Inr req"
    and "lookup_path req type_path = Some t"
  shows "handler cl rq =
     (case process_alexa_request cl req of
        Inl e \<Rightarrow> (\<lparr>statusCode = 500, headers = None, body = apology\<rparr>, [])
      | Inr (resp, calls) \<Rightarrow> (ok_response resp, calls))"
proof -
  from assms(3) obtain top r where
    "req = PDict top" "map_of top (str ''request'') = Some (PDict r)"
    and r: "map_of r (str ''type'') = Some t"
    by (auto simp: type_shape)
  moreover from r have "r \<noteq> []"
    by auto
  ultimately show ?thesis
    using assms(1,2) by (simp add: handler_post)
qed

lemma handler_not_object:
  assumes "http_method rq = str ''POST''" "body_not_object rq"
  shows "handler cl rq = (\<lparr>statusCode = 500, headers = None, body = apology\<rparr>, [])"
  using assms(2)
  by (auto simp: handler_post [OF assms(1)] body_not_object_def
      split: sum.splits pyval.splits)

lemma handler_present:
  assumes "http_method rq = str ''POST''" "\<not> request_missing rq" "read_request rq = Inr v"
  shows "handler cl rq =
     (case process_alexa_request cl v of
        Inl e \<Rightarrow> (\<lparr>statusCode = 500, headers = None, body = apology\<rparr>, [])
      | Inr (resp, calls) \<Rightarrow> (ok_response resp, calls))"
proof (cases v)
  case (PDict kvs)
  with assms(2,3) show ?thesis
    by (auto simp: handler_post [OF assms(1)] request_missing_def split: option.splits)
qed (use assms(3) in \<open>simp_all add: handler_post [OF assms(1)] process_alexa_request_def bind_res_def\<close>)

lemma read_post: "read_request (post v) = Inr v" "http_method (post v) = str ''POST''"
  by (simp_all add: post_def read_request_def json_loads_def)

section \<open>The AI responder: length bound and fallback\<close>

lemma try_length:
  "generate_ai_response_try cl q uid = Inr t \<Longrightarrow> length t \<le> 8000"
  by (auto simp: generate_ai_response_try_def Let_def
           split: completion.splits list.splits option.splits if_splits)

text \<open>
  Claim C5. Whatever the external service does, the text \<^verbatim>\<open>generate_ai_response\<close>
  returns has at most 8000 characters; and when the service returns a first choice whose
  stripped content is longer than 8000 characters, the text is the first 7900 characters
  of the stripped content followed by \<^verbatim>\<open>...\<close>.
\<close>

theorem generate_ai_response_bounded:
  "length (generate_ai_response cl q uid) \<le> 8000 \<and>
   (\<forall>c rest. cl q = Returns (Some c # rest) \<and> 8000 < length (strip c) \<longrightarrow>
       generate_ai_response cl q uid = take 7900 (strip c) @ str ''...'')"
proof
  show "length (generate_ai_response cl q uid) \<le> 8000"
  proof (cases "generate_ai_response_try cl q uid")
    case (Inl e)
    then show ?thesis by (simp add: generate_ai_response_def fallback_text_def)
  next
    case (Inr t)
    then show ?thesis by (simp add: generate_ai_response_def try_length)
  qed
next
  show "\<forall>c rest. cl q = Returns (Some c # rest) \<and> 8000 < length (strip c) \<longrightarrow>
       generate_ai_response cl q uid = take 7900 (strip c) @ str ''...''"
    by (simp add: generate_ai_response_def generate_ai_response_try_def)
qed

theorem generate_ai_response_bounded_witness:
  "8000 < length (strip (replicate 8001 97)) \<and>
   generate_ai_response long_reply (PStr (str ''hello'')) (PStr (str ''unknown''))
     = replicate 7900 97 @ str ''...'' \<and>
   length (generate_ai_response long_reply (PStr (str ''hello'')) (PStr (str ''unknown''))) = 7903"
proof -
  have s: "strip (replicate 8001 97) = replicate 8001 97"
    by (rule strip_replicate) (simp add: is_space_def)
  have l: "long_reply (PStr (str ''hello'')) = Returns [Some (replicate 8001 97)]"
    by (simp add: long_reply_def)
  from generate_ai_response_bounded [of long_reply "PStr (str ''hello'')" "PStr (str ''unknown'')"]
  have "generate_ai_response long_reply (PStr (str ''hello'')) (PStr (str ''unknown''))
     = take 7900 (strip (replicate 8001 97)) @ str ''...''"
    using l s by simp
  then show ?thesis using s by simp
qed

text \<open>
  Claim C6. When the external call fails, because the call raises, the response has no
  choice, or the first choice has no content, the \<^verbatim>\<open>try\<close> block of
  \<^verbatim>\<open>generate_ai_response\<close> raises and the function returns the fixed fallback sentence;
  the function itself returns a text in every case, so its caller sees no exception.
\<close>

theorem generate_ai_response_fallback:
  assumes "cl q = Raises \<or> cl q = Returns [] \<or> (\<exists>rest. cl q = Returns (None # rest))"
  shows "(\<exists>e. generate_ai_response_try cl q uid = Inl e) \<and>
         generate_ai_response cl q uid = fallback_text"
  using assms
  by (auto simp: generate_ai_response_def generate_ai_response_try_def)

theorem generate_ai_response_fallback_witness:
  "no_service (PStr (str ''hello'')) = Raises \<and>
   generate_ai_response no_service (PStr (str ''hello'')) (PStr (str ''unknown'')) =
     str ''I'm having trouble connecting to my knowledge base right now. Please try again in a moment.''"
  using generate_ai_response_fallback [of no_service "PStr (str ''hello'')" "PStr (str ''unknown'')"]
  by (simp add: no_service_def fallback_text_def)

section \<open>The top-level catch-all\<close>

text \<open>
  The status of the catch-all is 500, not 200: an intent request whose intent has no name
  raises \<^verbatim>\<open>KeyError\<close> in the router, and the handler answers with status 500.
\<close>

theorem catch_all_status_counterexample:
  "handler_try no_service (post intent_without_name) = Inl KeyError \<and>
   statusCode (fst (handler no_service (post intent_without_name))) \<noteq> 200"
  by (simp add: handler_def handler_try_def post_def read_request_def json_loads_def
      intent_without_name_def router_defs)

text \<open>
  Claim C1, amended. For every inbound request whose processing raises an exception, the
  handler returns status 500 with the speech-shaped apology, whose
  \<^verbatim>\<open>shouldEndSession\<close> is true. The body is the same fixed value for every exception,
  so it holds nothing of the exception's text; no invocation is reported.
\<close>

theorem catch_all:
  assumes "handler_try cl rq = Inl e"
  shows "handler cl rq = (\<lparr>statusCode = 500, headers = None, body = apology\<rparr>, []) \<and>
         speech_shaped apology \<and> should_end apology = Some (PBool True) \<and>
         speech_text apology =
           Some (PStr (str ''Sorry, I encountered an error. Please try again.''))"
  using assms
  by (simp add: handler_def apology_def speech_shaped_def envelope_def read_defs)

theorem catch_all_witness:
  "handler_try no_service (post intent_without_intent) = Inl KeyError \<and>
   handler no_service (post intent_without_intent) =
     (\<lparr>statusCode = 500, headers = None, body = apology\<rparr>, [])"
proof -
  have h: "handler_try no_service (post intent_without_intent) = Inl KeyError"
    by (simp add: handler_try_def post_def read_request_def json_loads_def
        intent_without_intent_def router_defs)
  from catch_all [OF h] h show ?thesis by simp
qed

section \<open>The router returns or raises\<close>

text \<open>
  The router raises on an intent request that has no \<^verbatim>\<open>intent\<close> object: the
  subscript \<^verbatim>\<open>alexa_request['request']['intent']\<close> raises \<^verbatim>\<open>KeyError\<close>.
\<close>

theorem router_raises_counterexample:
  "process_alexa_request no_service intent_without_intent = Inl KeyError"
  by (simp add: intent_without_intent_def router_defs)

text \<open>
  Claim C2, amended. When the \<^verbatim>\<open>request\<close> field is an object with a \<^verbatim>\<open>type\<close>
  and, for an intent request, an \<^verbatim>\<open>intent\<close> object with a \<^verbatim>\<open>name\<close>, the router
  returns one response, an envelope with the version tag and a response object, and raises
  nothing. On every other input it raises to its caller.
\<close>

theorem router_total_on_well_formed:
  "(well_formed req \<longrightarrow>
      (\<exists>resp calls. process_alexa_request cl req = Inr (resp, calls) \<and> envelope resp)) \<and>
   (\<not> well_formed req \<longrightarrow> (\<exists>e. process_alexa_request cl req = Inl e))"
  using router_well_formed [of req cl] router_ill_formed [of req cl] router_envelope [of cl req]
  by blast

theorem router_total_on_well_formed_witness:
  "well_formed launch_request \<and>
   (\<exists>resp calls. process_alexa_request no_service launch_request = Inr (resp, calls) \<and>
      envelope resp) \<and>
   \<not> well_formed intent_without_name \<and>
   (\<exists>e. process_alexa_request no_service intent_without_name = Inl e)"
proof -
  have "well_formed launch_request" "\<not> well_formed intent_without_name"
    by (simp_all add: well_formed_def launch_request_def intent_without_name_def
        type_path_def name_path_def)
  with router_total_on_well_formed [of launch_request no_service]
    router_total_on_well_formed [of intent_without_name no_service]
  show ?thesis by blast
qed

section \<open>Optional fields\<close>

lemma put_slots:
  assumes "absent req slots_path"
  shows "process_alexa_request cl (put_path slots_path (PDict []) req) =
         process_alexa_request cl req"
proof -
  from assms obtain top r i where
    "req = PDict top" "map_of top (str ''request'') = Some (PDict r)"
    "map_of r (str ''intent'') = Some (PDict i)" "map_of i (str ''slots'') = None"
    by (auto simp: slots_path_def absent_Cons2 absent_single)
  then show ?thesis
    by (simp add: slots_path_def router_defs split: option.split sum.split)
qed

lemma put_query:
  assumes "absent req query_path"
  shows "process_alexa_request cl (put_path query_path (PDict []) req) =
         process_alexa_request cl req"
proof -
  from assms obtain top r i s where
    "req = PDict top" "map_of top (str ''request'') = Some (PDict r)"
    "map_of r (str ''intent'') = Some (PDict i)" "map_of i (str ''slots'') = Some (PDict s)"
    "map_of s (str ''query'') = None"
    by (auto simp: query_path_def absent_Cons2 absent_single)
  then show ?thesis
    by (simp add: query_path_def router_defs split: option.split sum.split)
qed

lemma put_value:
  assumes "absent req value_path"
  shows "process_alexa_request cl (put_path value_path (PStr []) req) =
         process_alexa_request cl req"
proof -
  from assms obtain top r i s q where
    "req = PDict top" "map_of top (str ''request'') = Some (PDict r)"
    "map_of r (str ''intent'') = Some (PDict i)" "map_of i (str ''slots'') = Some (PDict s)"
    "map_of s (str ''query'') = Some (PDict q)" "map_of q (str ''value'') = None"
    by (auto simp: value_path_def absent_Cons2 absent_single)
  then show ?thesis
    by (simp add: value_path_def router_defs split: option.split sum.split)
qed

lemma put_session:
  assumes "absent req session_path"
  shows "process_alexa_request cl (put_path session_path (PDict []) req) =
         process_alexa_request cl req"
proof -
  from assms obtain top where
    "req = PDict top" "map_of top (str ''session'') = None"
    by (auto simp: session_path_def absent_single)
  then show ?thesis
    by (simp add: session_path_def router_defs split: option.split sum.split)
qed

lemma put_user:
  assumes "absent req user_path"
  shows "process_alexa_request cl (put_path user_path (PDict []) req) =
         process_alexa_request cl req"
proof -
  from assms obtain top s where
    "req = PDict top" "map_of top (str ''session'') = Some (PDict s)"
    "map_of s (str ''user'') = None"
    by (auto simp: user_path_def absent_Cons2 absent_single)
  then show ?thesis
    by (simp add: user_path_def router_defs split: option.split sum.split)
qed

lemma put_userId:
  assumes "absent req userId_path"
  shows "process_alexa_request cl (put_path userId_path (PStr (str ''unknown'')) req) =
         process_alexa_request cl req"
proof -
  from assms obtain top s u where
    "req = PDict top" "map_of top (str ''session'') = Some (PDict s)"
    "map_of s (str ''user'') = Some (PDict u)" "map_of u (str ''userId'') = None"
    by (auto simp: userId_path_def absent_Cons2 absent_single)
  then show ?thesis
    by (simp add: userId_path_def router_defs split: option.split sum.split)
qed

lemma chat_default_uid:
  assumes "absent req session_path \<or> absent req user_path \<or> absent req userId_path"
  shows "\<forall>inv \<in> set (snd (handle_chat_intent cl req)). snd inv = PStr (str ''unknown'')"
proof -
  from assms consider
      (s) top where "req = PDict top" "map_of top (str ''session'') = None"
    | (u) top s where "req = PDict top" "map_of top (str ''session'') = Some (PDict s)"
        "map_of s (str ''user'') = None"
    | (i) top s u where "req = PDict top" "map_of top (str ''session'') = Some (PDict s)"
        "map_of s (str ''user'') = Some (PDict u)" "map_of u (str ''userId'') = None"
    by (auto simp: session_path_def user_path_def userId_path_def absent_Cons2 absent_single)
  then show ?thesis
  proof cases
    case s
    then show ?thesis
      by (auto simp: handle_chat_intent_def handle_chat_intent_try_def bind_res_def
          split: sum.splits if_splits)
  next
    case u
    then show ?thesis
      by (auto simp: handle_chat_intent_def handle_chat_intent_try_def bind_res_def
          split: sum.splits if_splits)
  next
    case i
    then show ?thesis
      by (auto simp: handle_chat_intent_def handle_chat_intent_try_def bind_res_def
          split: sum.splits if_splits)
  qed
qed

text \<open>
  Claim C3. A chat request always gets a speech-shaped response from the router, never an
  exception, whatever optional fields it lacks; when the session, its user or the user's
  id is missing, the user identifier passed on is \<^verbatim>\<open>unknown\<close>. And for each optional
  field (the slots, the query slot, its value, the session, the user, the user id): when
  the field is missing, the router answers exactly as it does when the field is present
  with its empty default.
\<close>

theorem missing_optional_fields:
  "(is_intent req ''ChatIntent'' \<longrightarrow>
      (\<exists>resp calls. process_alexa_request cl req = Inr (resp, calls) \<and> speech_shaped resp \<and>
         (absent req session_path \<or> absent req user_path \<or> absent req userId_path \<longrightarrow>
            (\<forall>inv \<in> set calls. snd inv = PStr (str ''unknown''))))) \<and>
   (\<forall>(p, d) \<in> set optional_fields. absent req p \<longrightarrow>
      process_alexa_request cl (put_path p d req) = process_alexa_request cl req)"
proof (intro conjI impI)
  assume "is_intent req ''ChatIntent''"
  then have t: "lookup_path req type_path = Some (PStr (str ''IntentRequest''))"
    and n: "lookup_path req name_path = Some (PStr (str ''ChatIntent''))"
    by (simp_all add: is_intent_def)
  have "process_alexa_request cl req =
          Inr (fst (handle_chat_intent cl req), snd (handle_chat_intent cl req))"
    by (simp add: process_typed [OF t] intent_named [OF n])
  with chat_speech [of cl req] chat_default_uid [of req cl]
  show "\<exists>resp calls. process_alexa_request cl req = Inr (resp, calls) \<and> speech_shaped resp \<and>
            (absent req session_path \<or> absent req user_path \<or> absent req userId_path \<longrightarrow>
               (\<forall>inv \<in> set calls. snd inv = PStr (str ''unknown'')))"
    by blast
next
  show "\<forall>(p, d) \<in> set optional_fields. absent req p \<longrightarrow>
            process_alexa_request cl (put_path p d req) = process_alexa_request cl req"
    by (simp add: optional_fields_def put_slots put_query put_value put_session put_user
        put_userId)
qed

theorem missing_optional_fields_witness:
  "is_intent chat_hello ''ChatIntent'' \<and> absent chat_hello session_path \<and>
   process_alexa_request no_service (put_path session_path (PDict []) chat_hello) =
     process_alexa_request no_service chat_hello \<and>
   process_alexa_request no_service chat_hello =
     Inr (create_error_response fallback_text, [(PStr (str ''hello''), PStr (str ''unknown''))])"
proof -
  have i: "is_intent chat_hello ''ChatIntent''"
    by (simp add: is_intent_def chat_hello_def type_path_def name_path_def)
  have a: "absent chat_hello session_path"
    by (simp add: chat_hello_def session_path_def)
  have p: "process_alexa_request no_service chat_hello =
     Inr (create_error_response fallback_text, [(PStr (str ''hello''), PStr (str ''unknown''))])"
    by (simp add: chat_hello_def router_defs generate_ai_response_def
        generate_ai_response_try_def no_service_def create_error_response_def)
  from missing_optional_fields [of chat_hello no_service] a
  have "process_alexa_request no_service (put_path session_path (PDict []) chat_hello) =
     process_alexa_request no_service chat_hello"
    by (simp add: optional_fields_def)
  with i a p show ?thesis by simp
qed

section \<open>Transport errors\<close>

text \<open>
  A body that \<^verbatim>\<open>json.loads\<close> cannot parse is not answered with status 400 and an
  error body: the exception reaches the catch-all, which answers 500 with the apology.
\<close>

theorem unparseable_body_counterexample:
  "statusCode (fst (handler no_service garbled_post)) = 500 \<and>
   statusCode (fst (handler no_service garbled_post)) \<noteq> 400 \<and>
   body (fst (handler no_service garbled_post)) = apology \<and>
   speech_shaped (body (fst (handler no_service garbled_post)))"
  by (simp add: handler_def handler_try_def garbled_post_def read_request_def json_loads_def
      bind_res_def apology_def speech_shaped_def envelope_def read_defs)

text \<open>
  Claim C4, amended. A method other than POST yields status 405, and a parsed body whose
  \<^verbatim>\<open>request\<close> field is missing or false yields status 400, each with a body of the
  shape \<^verbatim>\<open>{error: string}\<close>, which is not speech-shaped. These are the only failures
  answered so. Every other POST is answered either with status 500 and the speech-shaped
  apology, whose \<^verbatim>\<open>shouldEndSession\<close> is true, when reading the body or the router
  raises, or with status 200 and the router's response, which is speech-shaped or, for a
  session-ended request, the envelope with the empty response object. In particular a
  body that cannot be parsed, and a body that parses to something other than an object,
  yield status 500 with the apology.
\<close>

theorem transport_errors:
  "(http_method rq \<noteq> str ''POST'' \<longrightarrow>
      handler cl rq =
        (\<lparr>statusCode = 405, headers = None,
          body = PDict [(str ''error'', PStr (str ''Method not allowed''))]\<rparr>, [])) \<and>
   (http_method rq = str ''POST'' \<and> request_missing rq \<longrightarrow>
      handler cl rq =
        (\<lparr>statusCode = 400, headers = None,
          body = PDict [(str ''error'', PStr (str ''Invalid Alexa request''))]\<rparr>, [])) \<and>
   (http_method rq = str ''POST'' \<and> \<not> request_missing rq \<longrightarrow>
      (case read_request rq of
         Inl e \<Rightarrow> handler cl rq = (\<lparr>statusCode = 500, headers = None, body = apology\<rparr>, [])
       | Inr v \<Rightarrow>
           (case process_alexa_request cl v of
              Inl e \<Rightarrow>
                handler cl rq = (\<lparr>statusCode = 500, headers = None, body = apology\<rparr>, [])
            | Inr (resp, calls) \<Rightarrow>
                handler cl rq = (ok_response resp, calls) \<and>
                (speech_shaped resp \<or>
                 session_ended v \<and> resp = handle_session_ended_request)))) \<and>
   (http_method rq = str ''POST'' \<and> (body_attr rq = Some Unparseable \<or> body_not_object rq) \<longrightarrow>
      handler cl rq = (\<lparr>statusCode = 500, headers = None, body = apology\<rparr>, [])) \<and>
   speech_shaped apology \<and>
   should_end apology = Some (PBool True) \<and>
   speech_text apology = Some (PStr (str ''Sorry, I encountered an error. Please try again.'')) \<and>
   \<not> speech_shaped (PDict [(str ''error'', PStr (str ''Method not allowed''))]) \<and>
   \<not> speech_shaped (PDict [(str ''error'', PStr (str ''Invalid Alexa request''))])"
proof (intro conjI impI)
  assume "http_method rq \<noteq> str ''POST''"
  then show "handler cl rq =
        (\<lparr>statusCode = 405, headers = None,
          body = PDict [(str ''error'', PStr (str ''Method not allowed''))]\<rparr>, [])"
    by (simp add: handler_def handler_try_def)
next
  assume a: "http_method rq = str ''POST'' \<and> request_missing rq"
  then show "handler cl rq =
        (\<lparr>statusCode = 400, headers = None,
          body = PDict [(str ''error'', PStr (str ''Invalid Alexa request''))]\<rparr>, [])"
    by (auto simp: handler_post request_missing_def split: sum.splits pyval.splits option.splits)
next
  assume a: "http_method rq = str ''POST'' \<and> \<not> request_missing rq"
  then have m: "http_method rq = str ''POST''" and nm: "\<not> request_missing rq" by simp_all
  show "case read_request rq of
         Inl e \<Rightarrow> handler cl rq = (\<lparr>statusCode = 500, headers = None, body = apology\<rparr>, [])
       | Inr v \<Rightarrow>
           (case process_alexa_request cl v of
              Inl e \<Rightarrow>
                handler cl rq = (\<lparr>statusCode = 500, headers = None, body = apology\<rparr>, [])
            | Inr (resp, calls) \<Rightarrow>
                handler cl rq = (ok_response resp, calls) \<and>
                (speech_shaped resp \<or>
                 session_ended v \<and> resp = handle_session_ended_request))"
  proof (cases "read_request rq")
    case (Inl e)
    then show ?thesis by (simp add: handler_post [OF m])
  next
    case (Inr v)
    show ?thesis
    proof (cases "process_alexa_request cl v")
      case (Inl e)
      with Inr show ?thesis by (simp add: handler_present [OF m nm Inr])
    next
      case r: (Inr p)
      obtain resp calls where p: "p = (resp, calls)" by (cases p)
      from r p router_speech [of cl v resp calls] Inr show ?thesis
        by (simp add: handler_present [OF m nm Inr])
    qed
  qed
next
  assume a: "http_method rq = str ''POST'' \<and> (body_attr rq = Some Unparseable \<or> body_not_object rq)"
  then have m: "http_method rq = str ''POST''" by simp
  from a consider "body_attr rq = Some Unparseable" | "body_not_object rq" by blast
  then show "handler cl rq = (\<lparr>statusCode = 500, headers = None, body = apology\<rparr>, [])"
  proof cases
    case 1
    then show ?thesis by (simp add: handler_post [OF m] read_request_def json_loads_def)
  next
    case 2
    then show ?thesis by (rule handler_not_object [OF m])
  qed
qed (simp_all add: speech_shaped_def envelope_def apology_def read_defs)

theorem transport_errors_witness:
  "http_method get_request \<noteq> str ''POST'' \<and>
   handler no_service get_request =
     (\<lparr>statusCode = 405, headers = None,
       body = PDict [(str ''error'', PStr (str ''Method not allowed''))]\<rparr>, []) \<and>
   http_method (post (PDict [])) = str ''POST'' \<and> request_missing (post (PDict [])) \<and>
   handler no_service (post (PDict [])) =
     (\<lparr>statusCode = 400, headers = None,
       body = PDict [(str ''error'', PStr (str ''Invalid Alexa request''))]\<rparr>, []) \<and>
   \<not> request_missing (post launch_request) \<and>
   handler no_service (post launch_request) = (ok_response handle_launch_request, []) \<and>
   speech_shaped handle_launch_request \<and>
   body_attr garbled_post = Some Unparseable \<and>
   handler no_service garbled_post = (\<lparr>statusCode = 500, headers = None, body = apology\<rparr>, []) \<and>
   body_not_object list_post \<and>
   handler no_service list_post = (\<lparr>statusCode = 500, headers = None, body = apology\<rparr>, [])"
proof -
  have g: "http_method get_request \<noteq> str ''POST''"
    by (simp add: get_request_def)
  have e: "http_method (post (PDict [])) = str ''POST''" "request_missing (post (PDict []))"
    by (simp_all add: request_missing_def read_post)
  have l: "http_method (post launch_request) = str ''POST''"
    "\<not> request_missing (post launch_request)"
    "read_request (post launch_request) = Inr launch_request"
    "process_alexa_request no_service launch_request = Inr (handle_launch_request, [])"
    by (simp_all add: request_missing_def read_post launch_request_def router_defs)
  have u: "http_method garbled_post = str ''POST''" "body_attr garbled_post = Some Unparseable"
    by (simp_all add: garbled_post_def)
  have n: "http_method list_post = str ''POST''" "body_not_object list_post"
    by (simp_all add: list_post_def body_not_object_def read_post)
  from transport_errors [of get_request no_service] transport_errors [of "post (PDict [])" no_service]
    transport_errors [of "post launch_request" no_service]
    transport_errors [of garbled_post no_service] transport_errors [of list_post no_service]
    g e l u n
  show ?thesis by (simp add: speech_builders)
qed

section \<open>The chat intent without a query\<close>

lemma chat_try_no_query:
  assumes "query_missing_or_empty req"
  shows "handle_chat_intent_try cl req =
           Inr (create_error_response
                  (str ''I didn't catch what you said. Could you repeat that?''), [])"
proof -
  from assms consider
      (slots) "absent req slots_path" | (query) "absent req query_path"
    | (val) "absent req value_path"
    | (empty) v where "lookup_path req value_path = Some v" "\<not> truthy v"
    by (auto simp: query_missing_or_empty_def split: option.splits)
  then show ?thesis
  proof cases
    case slots
    then show ?thesis
      by (auto simp: slots_path_def absent_Cons2 absent_single
            handle_chat_intent_try_def bind_res_def)
  next
    case query
    then show ?thesis
      by (auto simp: query_path_def absent_Cons2 absent_single
            handle_chat_intent_try_def bind_res_def)
  next
    case val
    then show ?thesis
      by (auto simp: value_path_def absent_Cons2 absent_single
            handle_chat_intent_try_def bind_res_def)
  next
    case empty
    then show ?thesis
      by (auto simp: value_path_def lookup_path_Cons
            handle_chat_intent_try_def bind_res_def)
  qed
qed

text \<open>
  Claim C7. For a chat-intent request whose query slot is missing or has an empty value,
  the router returns exactly the error response whose plain-text output speech is
  \<^verbatim>\<open>I didn't catch what you said. Could you repeat that?\<close>, with
  \<^verbatim>\<open>shouldEndSession\<close> false and no reprompt, and \<^verbatim>\<open>generate_ai_response\<close> is not
  invoked: the list of invocations is empty.
\<close>

theorem chat_without_query:
  assumes "is_intent req ''ChatIntent''" and "query_missing_or_empty req"
  shows "\<exists>resp. process_alexa_request cl req = Inr (resp, []) \<and>
           resp = PDict [(str ''version'', PStr (str ''1.0'')),
                         (str ''response'', PDict
                            [(str ''outputSpeech'', PDict
                                [(str ''type'', PStr (str ''PlainText'')),
                                 (str ''text'', PStr
                                    (str ''I didn't catch what you said. Could you repeat that?''))]),
                             (str ''shouldEndSession'', PBool False)])] \<and>
           speech_text resp =
             Some (PStr (str ''I didn't catch what you said. Could you repeat that?'')) \<and>
           should_end resp = Some (PBool False) \<and>
           reprompt_text resp = None"
proof -
  from assms(1) have t: "lookup_path req type_path = Some (PStr (str ''IntentRequest''))"
    and n: "lookup_path req name_path = Some (PStr (str ''ChatIntent''))"
    by (simp_all add: is_intent_def)
  have "handle_chat_intent cl req =
          (create_error_response
             (str ''I didn't catch what you said. Could you repeat that?''), [])"
    by (simp add: handle_chat_intent_def chat_try_no_query [OF assms(2)])
  then have "process_alexa_request cl req =
          Inr (create_error_response
             (str ''I didn't catch what you said. Could you repeat that?''), [])"
    by (simp add: process_typed [OF t] intent_named [OF n])
  then show ?thesis
    by (simp add: create_error_response_def read_defs)
qed

lemma sample_lookups:
  "is_intent chat_no_slots ''ChatIntent''"
  "is_intent chat_empty_value ''ChatIntent''"
  "query_missing_or_empty chat_no_slots"
  "query_missing_or_empty chat_empty_value"
  by (simp_all add: is_intent_def query_missing_or_empty_def chat_no_slots_def
      chat_empty_value_def type_path_def name_path_def slots_path_def query_path_def
      value_path_def)

theorem chat_without_query_witness:
  "is_intent chat_no_slots ''ChatIntent'' \<and> query_missing_or_empty chat_no_slots \<and>
   is_intent chat_empty_value ''ChatIntent'' \<and> query_missing_or_empty chat_empty_value \<and>
   (\<exists>resp. process_alexa_request long_reply chat_no_slots = Inr (resp, []) \<and>
      speech_text resp =
        Some (PStr (str ''I didn't catch what you said. Could you repeat that?'')) \<and>
      should_end resp = Some (PBool False)) \<and>
   (\<exists>resp. process_alexa_request long_reply chat_empty_value = Inr (resp, []) \<and>
      speech_text resp =
        Some (PStr (str ''I didn't catch what you said. Could you repeat that?'')) \<and>
      should_end resp = Some (PBool False))"
  using chat_without_query [of chat_no_slots long_reply]
    chat_without_query [of chat_empty_value long_reply]
  by (simp add: sample_lookups)

section \<open>Launch, stop and cancel\<close>

text \<open>
  Claim C8. Every launch request yields a response whose \<^verbatim>\<open>shouldEndSession\<close> is
  false, whose output speech text is the greeting, and whose reprompt text is not empty;
  no invocation is made, and the handler answers a POST of it with status 200 and this
  response.
\<close>

theorem launch_response:
  assumes "lookup_path req type_path = Some (PStr (str ''LaunchRequest''))"
  shows "\<exists>resp. process_alexa_request cl req = Inr (resp, []) \<and>
           should_end resp = Some (PBool False) \<and>
           speech_text resp =
             Some (PStr (str ''Hello! I'm your AI assistant. How can I help you today?'')) \<and>
           (\<exists>t. reprompt_text resp = Some (PStr t) \<and> t \<noteq> []) \<and>
           handler cl (post req) = (ok_response resp, [])"
proof -
  have p: "process_alexa_request cl req = Inr (handle_launch_request, [])"
    by (simp add: process_typed [OF assms])
  have "handler cl (post req) = (ok_response handle_launch_request, [])"
    by (simp add: handler_typed [OF _ _ assms] p read_post)
  with p show ?thesis
    by (simp add: handle_launch_request_def read_defs)
qed

theorem launch_response_witness:
  "lookup_path launch_request type_path = Some (PStr (str ''LaunchRequest'')) \<and>
   (\<exists>resp. process_alexa_request no_service launch_request = Inr (resp, []) \<and>
      should_end resp = Some (PBool False) \<and>
      speech_text resp =
        Some (PStr (str ''Hello! I'm your AI assistant. How can I help you today?'')))"
proof -
  have h: "lookup_path launch_request type_path = Some (PStr (str ''LaunchRequest''))"
    by (simp add: launch_request_def type_path_def)
  from launch_response [OF h, of no_service] h show ?thesis
    by blast
qed

text \<open>
  Claim C9. Every stop or cancel intent request yields exactly the response
  \<^verbatim>\<open>{"version": "1.0", "response": {"outputSpeech": {"type": "PlainText", "text":
  "Goodbye!"}, "shouldEndSession": true}}\<close>, whose \<^verbatim>\<open>shouldEndSession\<close> is true.
\<close>

theorem stop_response:
  assumes "stop_or_cancel req"
  shows "\<exists>resp. process_alexa_request cl req = Inr (resp, []) \<and>
           resp = PDict [(str ''version'', PStr (str ''1.0'')),
                         (str ''response'', PDict
                            [(str ''outputSpeech'', PDict
                                [(str ''type'', PStr (str ''PlainText'')),
                                 (str ''text'', PStr (str ''Goodbye!''))]),
                             (str ''shouldEndSession'', PBool True)])] \<and>
           should_end resp = Some (PBool True) \<and>
           handler cl (post req) = (ok_response resp, [])"
proof -
  from assms obtain n where
    t: "lookup_path req type_path = Some (PStr (str ''IntentRequest''))"
    and n: "lookup_path req name_path = Some (PStr (str n))"
    and c: "n = ''AMAZON.StopIntent'' \<or> n = ''AMAZON.CancelIntent''"
    by (auto simp: stop_or_cancel_def is_intent_def)
  from c have p: "process_alexa_request cl req = Inr (handle_stop_intent, [])"
    by (auto simp: process_typed [OF t] intent_named [OF n])
  have "handler cl (post req) = (ok_response handle_stop_intent, [])"
    by (simp add: handler_typed [OF _ _ t] p read_post)
  with p show ?thesis
    by (simp add: handle_stop_intent_def read_defs)
qed

theorem stop_response_witness:
  "stop_or_cancel stop_request \<and> stop_or_cancel cancel_request \<and>
   process_alexa_request no_service stop_request = Inr (handle_stop_intent, []) \<and>
   process_alexa_request no_service cancel_request = Inr (handle_stop_intent, []) \<and>
   should_end handle_stop_intent = Some (PBool True)"
proof -
  have s: "stop_or_cancel stop_request" and c: "stop_or_cancel cancel_request"
    by (simp_all add: stop_or_cancel_def is_intent_def stop_request_def cancel_request_def
        type_path_def name_path_def)
  from stop_response [of stop_request no_service] stop_response [of cancel_request no_service] s c
  show ?thesis
    by (simp add: handle_stop_intent_def speech_def)
qed

section \<open>The invariant of the router's responses\<close>

text \<open>
  Claim C10. Every response the router returns has the version \<^verbatim>\<open>1.0\<close>; its
  \<^verbatim>\<open>shouldEndSession\<close> is true exactly for the stop and cancel intent requests; every
  other response sets it to false, except the response to a session-ended request, which
  has an empty response object and no such field.
\<close>

theorem router_invariant:
  assumes "process_alexa_request cl req = Inr (resp, calls)"
  shows "version_of resp = Some (PStr (str ''1.0'')) \<and>
         (should_end resp = Some (PBool True) \<longleftrightarrow> stop_or_cancel req) \<and>
         (\<not> stop_or_cancel req \<longrightarrow>
            (if session_ended req
             then response_of resp = Some (PDict []) \<and> should_end resp = None
             else should_end resp = Some (PBool False)))"
proof -
  obtain t where t: "lookup_path req type_path = Some t"
    using process_untyped [of req cl] assms by (cases "lookup_path req type_path") auto
  show ?thesis
  proof (cases "t = PStr (str ''IntentRequest'')")
    case False
    with assms show ?thesis
      using t
      by (auto simp: process_typed [OF t] stop_or_cancel_def is_intent_def session_ended_def
          handle_launch_request_def handle_session_ended_request_def
          create_error_response_def read_defs split: if_splits)
  next
    case True
    with assms t have i: "handle_intent_request cl req = Inr (resp, calls)"
      by (simp add: process_typed [OF t])
    then obtain n where n: "lookup_path req name_path = Some n"
      using intent_request_result by blast
    obtain m where m: "fst (handle_chat_intent cl req) = create_error_response m"
      using chat_shape by blast
    from i True t n m show ?thesis
      by (auto simp: intent_named [OF n] stop_or_cancel_def is_intent_def session_ended_def
          handle_help_intent_def handle_stop_intent_def
          create_error_response_def read_defs split: if_splits)
  qed
qed

theorem router_invariant_witness:
  "process_alexa_request no_service stop_request = Inr (handle_stop_intent, []) \<and>
   version_of handle_stop_intent = Some (PStr (str ''1.0'')) \<and>
   stop_or_cancel stop_request \<and>
   process_alexa_request no_service launch_request = Inr (handle_launch_request, []) \<and>
   \<not> stop_or_cancel launch_request \<and> \<not> session_ended launch_request \<and>
   should_end handle_launch_request = Some (PBool False) \<and>
   process_alexa_request no_service session_ended_request =
     Inr (handle_session_ended_request, []) \<and>
   session_ended session_ended_request \<and>
   should_end handle_session_ended_request = None"
proof -
  have s: "process_alexa_request no_service stop_request = Inr (handle_stop_intent, [])"
    by (simp add: stop_request_def router_defs)
  have l: "process_alexa_request no_service launch_request = Inr (handle_launch_request, [])"
    by (simp add: launch_request_def router_defs)
  have e: "process_alexa_request no_service session_ended_request =
     Inr (handle_session_ended_request, [])"
    by (simp add: session_ended_request_def router_defs)
  have x: "stop_or_cancel stop_request" "\<not> stop_or_cancel launch_request"
    "\<not> session_ended launch_request" "\<not> stop_or_cancel session_ended_request"
    "session_ended session_ended_request"
    by (simp_all add: stop_or_cancel_def session_ended_def is_intent_def stop_request_def
        launch_request_def session_ended_request_def type_path_def name_path_def)
  from router_invariant [OF s] router_invariant [OF l] router_invariant [OF e] s l e x
  show ?thesis
    by simp
qed

end
